theory Spec2Isabelle
  imports Complex_Main "HOL-Library.Log_Nat"
begin

section \<open>The minimum finder \<open>compare_values\<close>\<close>

text \<open>
  The notebook's scanner:
  \<^verbatim>\<open>
  def compare_values(values):
      sol = 0
      i = 0
      for n in range(len(values)):
          if values[n] < sol:
              sol = values[n]
              i = n
      return sol, i
  \<close>
  The function is duck-typed: it only needs a zero and a comparison \<open><\<close> on the elements.
  The loop body is \<open>scan_step\<close>, acting on the pair \<open>(sol, i)\<close>; the loop over
  \<open>range(len(values))\<close> is a fold over \<open>[0..<length values]\<close>, so every read
  \<open>values ! n\<close> is in range.
\<close>

definition scan_step :: "'a::ord list \<Rightarrow> nat \<Rightarrow> 'a \<times> nat \<Rightarrow> 'a \<times> nat" where
  "scan_step values n st =
     (case st of (sol, i) \<Rightarrow> if values ! n < sol then (values ! n, n) else (sol, i))"

definition compare_values :: "'a::{zero,ord} list \<Rightarrow> 'a \<times> nat" where
  "compare_values values = fold (scan_step values) [0..<length values] (0, 0)"

section \<open>Python floats\<close>

text \<open>
  The notebook computes with Python \<open>float\<close>s, which are IEEE 754 binary64 values. A
  finite float is the rational number it denotes; the two infinities and NaN are values of
  their own. The sign of a zero is not modelled: \<open>-0.0\<close> and \<open>0.0\<close> compare equal
  in Python and no operation of the notebook tells them apart.
\<close>

datatype pyfloat = Fin rat | PInf | NInf | NaN

datatype py_error = ZeroDivisionError | OverflowError

text \<open>Sequencing of computations that may raise: the first exception wins.\<close>

definition bind_err :: "py_error + 'a \<Rightarrow> ('a \<Rightarrow> py_error + 'b) \<Rightarrow> py_error + 'b" where
  "bind_err m f = (case m of Inl e \<Rightarrow> Inl e | Inr v \<Rightarrow> f v)"

subsection \<open>Rounding to binary64\<close>

text \<open>\<open>ilog2 x\<close> is the binary exponent of a positive rational: \<open>2^e \<le> x < 2^(e+1)\<close>.\<close>

definition ilog2 :: "rat \<Rightarrow> int" where
  "ilog2 x = (case quotient_of x of (n, d) \<Rightarrow>
     let e = bitlen n - bitlen d in if 2 powi e \<le> x then e else e - 1)"

definition round_half_even :: "rat \<Rightarrow> int" where
  "round_half_even x =
     (let f = \<lfloor>x\<rfloor>; r = x - of_int f
      in if r < 1 / 2 then f else if 1 / 2 < r then f + 1 else if even f then f else f + 1)"

text \<open>
  The exponent of the unit in the last place: 53 significant bits, and never below the
  subnormal spacing \<open>2^-1074\<close>.
\<close>

definition b64_quantum :: "rat \<Rightarrow> int" where
  "b64_quantum x = max (ilog2 \<bar>x\<bar> - 52) (- 1074)"

text \<open>
  Round to nearest, ties to even. A result of magnitude \<open>2^1024\<close> or more overflows to
  an infinity; tiny values round to subnormals or to zero.
\<close>

definition b64_round :: "rat \<Rightarrow> pyfloat" where
  "b64_round x =
     (if x = 0 then Fin 0
      else let q = b64_quantum x; y = of_int (round_half_even (x / 2 powi q)) * 2 powi q
           in if 2 ^ 1024 \<le> \<bar>y\<bar> then (if 0 < x then PInf else NInf) else Fin y)"

text \<open>A decimal literal of the source denotes the nearest binary64 value.\<close>

definition lit :: "rat \<Rightarrow> pyfloat" where
  "lit q = b64_round q"

subsection \<open>Comparison\<close>

text \<open>Python's \<open><\<close> and \<open>==\<close> on floats: every comparison with NaN is false.\<close>

fun py_lt :: "pyfloat \<Rightarrow> pyfloat \<Rightarrow> bool" where
  "py_lt NaN y = False"
| "py_lt x NaN = False"
| "py_lt (Fin a) (Fin b) = (a < b)"
| "py_lt (Fin a) PInf = True"
| "py_lt (Fin a) NInf = False"
| "py_lt PInf y = False"
| "py_lt NInf NInf = False"
| "py_lt NInf y = True"

definition py_eq :: "pyfloat \<Rightarrow> pyfloat \<Rightarrow> bool" where
  "py_eq x y = (x \<noteq> NaN \<and> x = y)"

instantiation pyfloat :: "{zero,ord}"
begin

definition zero_pyfloat :: pyfloat where
  "zero_pyfloat = Fin 0"

definition less_pyfloat :: "pyfloat \<Rightarrow> pyfloat \<Rightarrow> bool" where
  "less_pyfloat x y = py_lt x y"

definition less_eq_pyfloat :: "pyfloat \<Rightarrow> pyfloat \<Rightarrow> bool" where
  "less_eq_pyfloat x y = (py_lt x y \<or> py_eq x y)"

instance ..

end

definition is_finite :: "pyfloat \<Rightarrow> bool" where
  "is_finite x = (case x of Fin a \<Rightarrow> True | PInf \<Rightarrow> False | NInf \<Rightarrow> False | NaN \<Rightarrow> False)"

subsection \<open>Arithmetic\<close>

fun py_neg :: "pyfloat \<Rightarrow> pyfloat" where
  "py_neg (Fin a) = Fin (- a)"
| "py_neg PInf = NInf"
| "py_neg NInf = PInf"
| "py_neg NaN = NaN"

text \<open>A finite factor times an infinity: zero gives NaN, otherwise the sign decides.\<close>

definition scale_inf :: "rat \<Rightarrow> pyfloat \<Rightarrow> pyfloat" where
  "scale_inf a y = (if a = 0 then NaN else if 0 < a then y else py_neg y)"

fun py_mul :: "pyfloat \<Rightarrow> pyfloat \<Rightarrow> pyfloat" where
  "py_mul NaN y = NaN"
| "py_mul x NaN = NaN"
| "py_mul (Fin a) (Fin b) = b64_round (a * b)"
| "py_mul (Fin a) y = scale_inf a y"
| "py_mul x (Fin b) = scale_inf b x"
| "py_mul PInf y = y"
| "py_mul NInf y = py_neg y"

fun py_sub :: "pyfloat \<Rightarrow> pyfloat \<Rightarrow> pyfloat" where
  "py_sub NaN y = NaN"
| "py_sub x NaN = NaN"
| "py_sub (Fin a) (Fin b) = b64_round (a - b)"
| "py_sub (Fin a) y = py_neg y"
| "py_sub x (Fin b) = x"
| "py_sub PInf PInf = NaN"
| "py_sub NInf NInf = NaN"
| "py_sub x y = x"

text \<open>
  True division \<open>x / y\<close> of floats. CPython tests the divisor first and raises
  \<open>ZeroDivisionError\<close> when it is zero, whatever the dividend is.
\<close>

fun py_div :: "pyfloat \<Rightarrow> pyfloat \<Rightarrow> py_error + pyfloat" where
  "py_div x (Fin b) =
     (if b = 0 then Inl ZeroDivisionError
      else case x of
        Fin a \<Rightarrow> Inr (b64_round (a / b))
      | NaN \<Rightarrow> Inr NaN
      | _ \<Rightarrow> Inr (scale_inf b x))"
| "py_div x NaN = Inr NaN"
| "py_div (Fin a) y = Inr (Fin 0)"
| "py_div x y = Inr NaN"

text \<open>
  \<open>pow(x, n)\<close> for a float \<open>x\<close> and an integer exponent \<open>n\<close> (\<open>float.__pow__\<close>,
  with the exponent converted to a float). CPython settles the special cases itself
  (exponent zero, NaN, infinities, base zero, negative base, base one) and hands the
  remaining case, a finite positive base other than one, to the platform's C function
  \<open>pow\<close>. That function is not part of the repository and its last-bit accuracy differs
  between platforms, so it is the parameter \<open>libm_pow\<close>. An infinite result of the C
  function is reported as \<open>OverflowError\<close>.
\<close>

definition float_pow :: "(rat \<Rightarrow> int \<Rightarrow> pyfloat) \<Rightarrow> pyfloat \<Rightarrow> int \<Rightarrow> py_error + pyfloat" where
  "float_pow libm_pow x n =
     (if n = 0 then Inr (Fin 1)
      else case x of
        NaN \<Rightarrow> Inr NaN
      | PInf \<Rightarrow> Inr (if 0 < n then PInf else Fin 0)
      | NInf \<Rightarrow> Inr (if 0 < n then (if odd n then NInf else PInf) else Fin 0)
      | Fin a \<Rightarrow>
          if a = 0 then (if n < 0 then Inl ZeroDivisionError else Inr (Fin 0))
          else if \<bar>a\<bar> = 1 then Inr (Fin (if a < 0 \<and> odd n then - 1 else 1))
          else (case libm_pow \<bar>a\<bar> n of
                  Fin r \<Rightarrow> Inr (Fin (if a < 0 \<and> odd n then - r else r))
                | NaN \<Rightarrow> Inr NaN
                | _ \<Rightarrow> Inl OverflowError))"

text \<open>The correctly rounded power: what an ideal C library returns.\<close>

definition cr_pow :: "rat \<Rightarrow> int \<Rightarrow> pyfloat" where
  "cr_pow a n = b64_round (a powi n)"

section \<open>The notebook\<close>

text \<open>
  \<^verbatim>\<open>
  def convert_to_j(value):
      return value * 1.602176634 * pow(10, -19)
  \<close>
  \<open>pow(10, -19)\<close> has two integer arguments and a negative exponent, so Python computes
  it as the float power \<open>10.0 ** -19.0\<close>.
\<close>

definition convert_to_j :: "(rat \<Rightarrow> int \<Rightarrow> pyfloat) \<Rightarrow> pyfloat \<Rightarrow> py_error + pyfloat" where
  "convert_to_j libm_pow val =
     bind_err (float_pow libm_pow (Fin 10) (- 19))
       (\<lambda>p. Inr (py_mul (py_mul val (lit (1602176634 / 10 ^ 9))) p))"

text \<open>
  \<^verbatim>\<open>
  def lennard_jones(epsilon, sigma, distance):
      return (4 * epsilon) * (pow((sigma / distance), 12) - pow((sigma / distance), 6))
  \<close>
  The integer \<open>4\<close> is converted to the float \<open>4.0\<close> before the product. The quotient
  is computed twice, as in the source.
\<close>

definition lennard_jones ::
    "(rat \<Rightarrow> int \<Rightarrow> pyfloat) \<Rightarrow> pyfloat \<Rightarrow> pyfloat \<Rightarrow> pyfloat \<Rightarrow> py_error + pyfloat" where
  "lennard_jones libm_pow epsilon sigma distance =
     bind_err (py_div sigma distance) (\<lambda>x.
     bind_err (float_pow libm_pow x 12) (\<lambda>a.
     bind_err (py_div sigma distance) (\<lambda>y.
     bind_err (float_pow libm_pow y 6) (\<lambda>b.
     Inr (py_mul (py_mul (Fin 4) epsilon) (py_sub a b))))))"

text \<open>The constants of the first cell.\<close>

definition epsilon_eV :: pyfloat where "epsilon_eV = lit (103 / 10000)"
definition sigma :: pyfloat where "sigma = lit (340 / 100)"
definition distance1 :: pyfloat where "distance1 = lit 3"
definition distance2 :: pyfloat where "distance2 = lit (34 / 10)"
definition distance3 :: pyfloat where "distance3 = lit (38 / 10)"
definition distance4 :: pyfloat where "distance4 = lit (42 / 10)"
definition distance5 :: pyfloat where "distance5 = lit (46 / 10)"
definition distance6 :: pyfloat where "distance6 = lit 5"

definition distances :: "pyfloat list" where
  "distances = [distance1, distance2, distance3, distance4, distance5, distance6]"

text \<open>
  Cells 3 and 5: \<open>epsilon = convert_to_j(epsilon)\<close>, then the six evaluations
  \<open>v1, ..., v6\<close>, in this order; the cell shows the tuple of the six values.
\<close>

definition potentials :: "(rat \<Rightarrow> int \<Rightarrow> pyfloat) \<Rightarrow> py_error + pyfloat list" where
  "potentials libm_pow =
     bind_err (convert_to_j libm_pow epsilon_eV) (\<lambda>epsilon.
     bind_err (lennard_jones libm_pow epsilon sigma distance1) (\<lambda>v1.
     bind_err (lennard_jones libm_pow epsilon sigma distance2) (\<lambda>v2.
     bind_err (lennard_jones libm_pow epsilon sigma distance3) (\<lambda>v3.
     bind_err (lennard_jones libm_pow epsilon sigma distance4) (\<lambda>v4.
     bind_err (lennard_jones libm_pow epsilon sigma distance5) (\<lambda>v5.
     bind_err (lennard_jones libm_pow epsilon sigma distance6) (\<lambda>v6.
     Inr [v1, v2, v3, v4, v5, v6])))))))"

text \<open>Cell 7: \<open>lowest, index = compare_values([v1, v2, v3, v4, v5, v6])\<close>.\<close>

definition lowest_index :: "(rat \<Rightarrow> int \<Rightarrow> pyfloat) \<Rightarrow> py_error + pyfloat \<times> nat" where
  "lowest_index libm_pow = bind_err (potentials libm_pow) (\<lambda>vs. Inr (compare_values vs))"

section \<open>Rounding for display and printing\<close>

text \<open>
  Cell 8:
  \<^verbatim>\<open>
  lowest = round(lowest * pow(10, 21), 2)
  print(f"{lowest}e-21 J")
  \<close>
  \<open>pow(10, 21)\<close> is the integer \<open>10^21\<close>; the product of a float and an integer
  converts the integer to the nearest float first (\<open>OverflowError\<close> when it is too
  large).
\<close>

definition int_as_float :: "int \<Rightarrow> py_error + pyfloat" where
  "int_as_float k = (case b64_round (of_int k) of Fin r \<Rightarrow> Inr (Fin r) | _ \<Rightarrow> Inl OverflowError)"

text \<open>
  \<open>round(x, ndigits)\<close> on a float: \<open>x\<close> is rounded exactly, half to even, to
  \<open>ndigits\<close> decimal places, and the decimal result is converted back to the nearest
  float. Infinities and NaN round to themselves, as does every float when \<open>ndigits\<close>
  exceeds 323.
\<close>

definition py_round :: "pyfloat \<Rightarrow> nat \<Rightarrow> py_error + pyfloat" where
  "py_round x ndigits =
     (case x of
        Fin a \<Rightarrow>
          if 323 < ndigits then Inr x
          else (case b64_round (of_int (round_half_even (a * 10 ^ ndigits)) / 10 ^ ndigits) of
                  Fin r \<Rightarrow> Inr (Fin r)
                | _ \<Rightarrow> Inl OverflowError)
      | _ \<Rightarrow> Inr x)"

text \<open>
  \<open>repr\<close> of a float, which is also what an f-string writes for it: the shortest
  string of at most 17 significant digits that reads back as the same float (a negative
  zero, which Python writes \<open>-0.0\<close>, is not modelled).
  \<open>dec_point x\<close> is the position of the decimal point of a positive \<open>x\<close>:
  \<open>10^(d-1) \<le> x < 10^d\<close>. The loops are bounded by 400 steps, more than the decimal
  exponent range of binary64.
\<close>

fun dec_point_up :: "nat \<Rightarrow> rat \<Rightarrow> int \<Rightarrow> int" where
  "dec_point_up 0 x d = d"
| "dec_point_up (Suc k) x d = (if x < 1 then d else dec_point_up k (x / 10) (d + 1))"

fun dec_point_down :: "nat \<Rightarrow> rat \<Rightarrow> int \<Rightarrow> int" where
  "dec_point_down 0 x d = d"
| "dec_point_down (Suc k) x d = (if 1 / 10 \<le> x then d else dec_point_down k (x * 10) (d - 1))"

definition dec_point :: "rat \<Rightarrow> int" where
  "dec_point x = (if 1 \<le> x then dec_point_up 400 x 0 else dec_point_down 400 x 0)"

text \<open>The nearest decimal with \<open>n\<close> significant digits, as an integer.\<close>

definition repr_candidate :: "rat \<Rightarrow> int \<Rightarrow> int \<Rightarrow> int" where
  "repr_candidate x d n = round_half_even (x * 10 powi (n - d))"

text \<open>
  The least number of digits, from \<open>n\<close> on, whose candidate reads back as \<open>x\<close>;
  the last number tried is not tested, 17 digits always suffice.
\<close>

fun shortest :: "rat \<Rightarrow> int \<Rightarrow> int \<Rightarrow> nat \<Rightarrow> int" where
  "shortest x d n 0 = n"
| "shortest x d n (Suc k) =
     (if b64_round (of_int (repr_candidate x d n) * 10 powi (d - n)) = Fin x then n
      else shortest x d (n + 1) k)"

fun strip_zeros :: "nat \<Rightarrow> nat \<Rightarrow> int \<Rightarrow> nat \<times> int" where
  "strip_zeros 0 c e = (c, e)"
| "strip_zeros (Suc k) c e = (if c mod 10 = 0 then strip_zeros k (c div 10) (e + 1) else (c, e))"

definition digit_char :: "nat \<Rightarrow> char" where
  "digit_char k = ''0123456789'' ! k"

fun digit_chars :: "nat \<Rightarrow> string" where
  "digit_chars n = (if n < 10 then [digit_char n] else digit_chars (n div 10) @ [digit_char (n mod 10)])"

declare digit_chars.simps [simp del]

text \<open>The exponent is written with a sign and at least two digits.\<close>

definition exponent_chars :: "int \<Rightarrow> string" where
  "exponent_chars e =
     (if e < 0 then ''e-'' else ''e+'')
     @ (if \<bar>e\<bar> < 10 then ''0'' else []) @ digit_chars (nat \<bar>e\<bar>)"

text \<open>
  Fixed notation when the decimal point lies within \<open>-4 < decpt \<le> 16\<close>, with
  \<open>.0\<close> appended to an integral value; exponent notation otherwise.
\<close>

definition format_short :: "string \<Rightarrow> int \<Rightarrow> string" where
  "format_short ds decpt =
     (if decpt \<le> - 4 \<or> 16 < decpt then
        (if length ds = 1 then ds else take 1 ds @ ''.'' @ drop 1 ds) @ exponent_chars (decpt - 1)
      else if decpt \<le> 0 then ''0.'' @ replicate (nat (- decpt)) CHR ''0'' @ ds
      else if int (length ds) \<le> decpt then
        ds @ replicate (nat (decpt - int (length ds))) CHR ''0'' @ ''.0''
      else take (nat decpt) ds @ ''.'' @ drop (nat decpt) ds)"

definition repr_positive :: "rat \<Rightarrow> string" where
  "repr_positive x =
     (let d = dec_point x; n = shortest x d 1 16;
          (c, e) = strip_zeros 17 (nat (repr_candidate x d n)) (d - n);
          ds = digit_chars c
      in format_short ds (int (length ds) + e))"

definition py_repr :: "pyfloat \<Rightarrow> string" where
  "py_repr x =
     (case x of
        Fin a \<Rightarrow> if a = 0 then ''0.0'' else if a < 0 then ''-'' @ repr_positive (- a)
                 else repr_positive a
      | PInf \<Rightarrow> ''inf''
      | NInf \<Rightarrow> ''-inf''
      | NaN \<Rightarrow> ''nan'')"

text \<open>The two statements of cell 8, for a given value of \<open>lowest\<close>.\<close>

definition rounded_lowest :: "pyfloat \<Rightarrow> py_error + pyfloat" where
  "rounded_lowest lowest =
     bind_err (int_as_float (10 ^ 21)) (\<lambda>t. py_round (py_mul lowest t) 2)"

definition printed_line :: "pyfloat \<Rightarrow> py_error + string" where
  "printed_line lowest =
     bind_err (rounded_lowest lowest) (\<lambda>r. Inr (py_repr r @ ''e-21 J''))"

section \<open>Properties of the scanner on totally ordered values\<close>

text \<open>The state of the loop after the first \<open>k\<close> iterations.\<close>

lemma scan_Suc:
  "fold (scan_step xs) [0..<Suc k] st = scan_step xs k (fold (scan_step xs) [0..<k] st)"
  by simp

lemma Min_take_Suc:
  fixes xs :: "'a::{zero,linorder} list"
  assumes "k < length xs"
  shows "Min (insert 0 (set (take (Suc k) xs))) = min (xs ! k) (Min (insert 0 (set (take k xs))))"
proof -
  have "set (take (Suc k) xs) = insert (xs ! k) (set (take k xs))"
    using assms by (simp add: take_Suc_conv_app_nth)
  then have "insert 0 (set (take (Suc k) xs)) = insert (xs ! k) (insert 0 (set (take k xs)))"
    by auto
  then show ?thesis
    by simp
qed

lemma scan_invariant:
  fixes xs :: "'a::{zero,linorder} list"
  assumes "k \<le> length xs" and "fold (scan_step xs) [0..<k] (0, 0) = (sol, i)"
  shows "sol = Min (insert 0 (set (take k xs))) \<and>
         ((sol = 0 \<and> i = 0) \<or> (i < k \<and> xs ! i = sol \<and> sol < 0 \<and> (\<forall>j<i. sol < xs ! j)))"
  using assms
proof (induction k arbitrary: sol i)
  case 0
  then show ?case by simp
next
  case (Suc k)
  obtain s0 i0 where prev: "fold (scan_step xs) [0..<k] (0, 0) = (s0, i0)"
    by (cases "fold (scan_step xs) [0..<k] (0, 0)") auto
  from Suc.prems have klt: "k < length xs" by simp
  have kle: "k \<le> length xs" using klt by simp
  note ih = Suc.IH [OF kle prev]
  have smin: "s0 = Min (insert 0 (set (take k xs)))"
    using ih by (rule conjunct1)
  have sidx: "(s0 = 0 \<and> i0 = 0) \<or> (i0 < k \<and> xs ! i0 = s0 \<and> s0 < 0 \<and> (\<forall>j<i0. s0 < xs ! j))"
    using ih by (rule conjunct2)
  have s0_le0: "s0 \<le> 0"
    using smin by simp
  have s0_lower: "\<forall>j<k. s0 \<le> xs ! j"
  proof (intro allI impI)
    fix j assume "j < k"
    then have "xs ! j \<in> set (take k xs)"
      using klt by (metis in_set_conv_nth length_take min.absorb2 nth_take less_imp_le_nat)
    then show "s0 \<le> xs ! j"
      using smin by simp
  qed
  have mstep: "Min (insert 0 (set (take (Suc k) xs))) = min (xs ! k) s0"
    unfolding smin by (rule Min_take_Suc [OF klt])
  have step: "(sol, i) = scan_step xs k (s0, i0)"
    using Suc.prems(2) prev by (simp only: scan_Suc)
  show ?case
  proof (cases "xs ! k < s0")
    case True
    then have eq: "sol = xs ! k" "i = k"
      using step by (simp_all add: scan_step_def)
    have "min (xs ! k) s0 = xs ! k"
      using True by (auto simp: min_def)
    then have "sol = Min (insert 0 (set (take (Suc k) xs)))"
      using mstep eq(1) by metis
    moreover have "sol < 0"
      using True s0_le0 eq by simp
    moreover have "\<forall>j<i. sol < xs ! j"
      using s0_lower True eq by auto
    ultimately show ?thesis
      using eq by simp
  next
    case False
    then have eq: "sol = s0" "i = i0"
      using step by (simp_all add: scan_step_def)
    have "min (xs ! k) s0 = s0"
      using False by (auto simp: min_def)
    then have "sol = Min (insert 0 (set (take (Suc k) xs)))"
      using mstep eq(1) by metis
    then show ?thesis
      using eq sidx by auto
  qed
qed

lemma compare_values_invariant:
  fixes xs :: "'a::{zero,linorder} list"
  assumes "compare_values xs = (sol, i)"
  shows "sol = Min (insert 0 (set xs)) \<and>
         ((sol = 0 \<and> i = 0) \<or>
          (i < length xs \<and> xs ! i = sol \<and> sol < 0 \<and> (\<forall>j<i. sol < xs ! j)))"
proof -
  have "fold (scan_step xs) [0..<length xs] (0, 0) = (sol, i)"
    using assms by (simp add: compare_values_def)
  from scan_invariant [OF order_refl this] show ?thesis
    unfolding take_all [OF order_refl] .
qed

text \<open>
  Claim C2. For every input sequence whose elements are all strictly positive,
  \<open>compare_values\<close> returns the pair \<open>(0, 0)\<close>; for a non-empty such sequence this
  is not the true minimum of the sequence, which is strictly positive.
\<close>

theorem compare_values_all_positive:
  fixes xs :: "'a::{zero,linorder} list"
  assumes "\<forall>x\<in>set xs. 0 < x"
  shows "compare_values xs = (0, 0) \<and> (xs \<noteq> [] \<longrightarrow> fst (compare_values xs) < Min (set xs))"
proof -
  obtain sol i where res: "compare_values xs = (sol, i)"
    by (cases "compare_values xs") auto
  note inv = compare_values_invariant [OF res]
  have "\<not> (i < length xs \<and> xs ! i = sol \<and> sol < 0)"
  proof
    assume a: "i < length xs \<and> xs ! i = sol \<and> sol < 0"
    then have "xs ! i \<in> set xs" using nth_mem by blast
    then have "0 < xs ! i" using assms by blast
    then show False using a by auto
  qed
  then have zero: "sol = 0 \<and> i = 0"
    using inv by blast
  have "xs \<noteq> [] \<longrightarrow> 0 < Min (set xs)"
    using assms by simp
  then show ?thesis
    using res zero by simp
qed

theorem compare_values_all_positive_witness:
  "(0::int) < 3 \<and> (0::int) < 1 \<and> (0::int) < 2 \<and> compare_values [3, 1, 2 :: int] = (0, 0)
   \<and> fst (compare_values [3, 1, 2 :: int]) < Min (set [3, 1, 2 :: int])"
proof -
  have h: "\<forall>x\<in>set [3, 1, 2 :: int]. 0 < x" by simp
  show ?thesis
    using h compare_values_all_positive [OF h] by simp
qed

text \<open>
  Claim C3. The general contract (the smallest value of the sequence with the index of its
  first occurrence) is not what the scan computes when no element is negative: on the
  two distances \<open>[3.0, 3.4]\<close> the scan answers \<open>(0, 0)\<close>, although the smallest value
  is \<open>3.0\<close>, and on \<open>[5, 0]\<close> it answers index \<open>0\<close> although \<open>0\<close> first occurs at
  index \<open>1\<close>.
\<close>

theorem compare_values_not_minimum:
  "compare_values [3, 34 / 10 :: rat] = (0, 0) \<and> Min (set [3, 34 / 10 :: rat]) = 3
   \<and> compare_values [5, 0 :: rat] = (0, 0) \<and> [5, 0 :: rat] ! 0 \<noteq> 0"
  by (simp add: compare_values_def scan_step_def)

text \<open>
  Claim C9. For every input list, the empty one included, the value returned by
  \<open>compare_values\<close> is the minimum of \<open>0\<close> and all elements of the list; on the empty
  list the result is \<open>(0, 0)\<close>.
\<close>

theorem compare_values_min_with_zero:
  fixes xs :: "'a::{zero,linorder} list"
  shows "fst (compare_values xs) = Min (insert 0 (set xs))
         \<and> compare_values ([] :: 'a list) = (0, 0)"
proof -
  obtain sol i where res: "compare_values xs = (sol, i)"
    by (cases "compare_values xs") auto
  from compare_values_invariant [OF res] res
  have "fst (compare_values xs) = Min (insert 0 (set xs))" by simp
  moreover have "compare_values ([] :: 'a list) = (0, 0)"
    by (simp add: compare_values_def)
  ultimately show ?thesis by simp
qed

text \<open>
  Claim C10. For every input list, the returned pair \<open>(sol, i)\<close> is either \<open>(0, 0)\<close>, or
  \<open>i\<close> is a valid index, the element at \<open>i\<close> is \<open>sol\<close>, \<open>sol\<close> is strictly negative
  and \<open>i\<close> is the first index at which \<open>sol\<close> occurs.
\<close>

theorem compare_values_index_invariant:
  fixes xs :: "'a::{zero,linorder} list"
  shows "(fst (compare_values xs) = 0 \<and> snd (compare_values xs) = 0) \<or>
         (snd (compare_values xs) < length xs
          \<and> xs ! snd (compare_values xs) = fst (compare_values xs)
          \<and> fst (compare_values xs) < 0
          \<and> (\<forall>j<snd (compare_values xs). xs ! j \<noteq> fst (compare_values xs)))"
proof -
  obtain sol i where res: "compare_values xs = (sol, i)"
    by (cases "compare_values xs") auto
  from compare_values_invariant [OF res]
  have "(sol = 0 \<and> i = 0) \<or>
        (i < length xs \<and> xs ! i = sol \<and> sol < 0 \<and> (\<forall>j<i. sol < xs ! j))"
    by blast
  then have "(sol = 0 \<and> i = 0) \<or>
        (i < length xs \<and> xs ! i = sol \<and> sol < 0 \<and> (\<forall>j<i. xs ! j \<noteq> sol))"
    by auto
  then show ?thesis
    using res by simp
qed

theorem compare_values_index_invariant_witness:
  "compare_values [1, -2, 4, -2 :: int] = (-2, 1)
   \<and> snd (compare_values [1, -2, 4, -2 :: int]) < length [1, -2, 4, -2 :: int]
   \<and> [1, -2, 4, -2 :: int] ! snd (compare_values [1, -2, 4, -2 :: int]) = -2
   \<and> [1, -2, 4, -2 :: int] ! 0 \<noteq> fst (compare_values [1, -2, 4, -2 :: int])"
proof -
  have c: "compare_values [1, -2, 4, -2 :: int] = (-2, 1)"
    by (simp add: compare_values_def scan_step_def upt_rec)
  show ?thesis
    using compare_values_index_invariant [of "[1, -2, 4, -2 :: int]"] c by simp
qed

text \<open>
  On a list of finite floats the scanner works as on the list of the rationals they
  denote, so the properties above hold for every such list.
\<close>

lemma scan_step_finite:
  assumes "n < length qs"
  shows "scan_step (map Fin qs) n (Fin s, i) =
         (case scan_step qs n (s, i) of (s', i') \<Rightarrow> (Fin s', i'))"
  using assms by (simp add: scan_step_def less_pyfloat_def)

lemma scan_finite:
  assumes "k \<le> length qs"
  shows "fold (scan_step (map Fin qs)) [0..<k] (Fin 0, 0) =
         (case fold (scan_step qs) [0..<k] (0, 0) of (s, i) \<Rightarrow> (Fin s, i))"
  using assms
proof (induction k)
  case 0
  then show ?case by simp
next
  case (Suc k)
  obtain s i where prev: "fold (scan_step qs) [0..<k] (0, 0) = (s, i)"
    by (cases "fold (scan_step qs) [0..<k] (0, 0)") auto
  from Suc have ih: "fold (scan_step (map Fin qs)) [0..<k] (Fin 0, 0) = (Fin s, i)"
    by (simp add: prev)
  from Suc.prems have "k < length qs" by simp
  then show ?case
    by (simp add: ih prev scan_step_finite del: fold_simps)
qed

lemma compare_values_finite_floats:
  "compare_values (map Fin qs) = (case compare_values qs of (s, i) \<Rightarrow> (Fin s, i))"
  using scan_finite [of "length qs" qs]
  by (simp add: compare_values_def zero_pyfloat_def)

section \<open>Evaluating the rounding\<close>

text \<open>
  The rounding function is evaluated through a certificate: the binary exponent \<open>e\<close> of
  the argument and the rounded significand \<open>m\<close> are given, and the side conditions are
  comparisons of rational numerals.
\<close>

lemma two_powi_nat: "0 \<le> k \<Longrightarrow> (2::rat) powi k = of_int (2 ^ nat k)"
  by (simp add: power_int_nonneg_exp)

lemma ilog2_bounds:
  assumes "0 < x"
  shows "2 powi ilog2 x \<le> x \<and> x < 2 powi (ilog2 x + 1)"
proof -
  obtain n d where q: "quotient_of x = (n, d)"
    by (cases "quotient_of x") auto
  have dpos: "0 < d" using quotient_of_denom_pos [OF q] .
  have xeq: "x = of_int n / of_int d" using quotient_of_div [OF q] .
  have npos: "0 < n" using assms dpos xeq by (simp add: zero_less_divide_iff)
  define bn where "bn = bitlen n"
  define bd where "bd = bitlen d"
  have bn1: "1 \<le> bn" using npos by (simp add: bn_def bitlen_alt_def)
  have bd1: "1 \<le> bd" using dpos by (simp add: bd_def bitlen_alt_def)
  have nlo: "(2::rat) powi (bn - 1) \<le> of_int n"
    using bitlen_bounds [OF npos] bn1 unfolding bn_def [symmetric]
    by (simp only: two_powi_nat of_int_le_iff)
  have nhi: "of_int n < (2::rat) powi bn"
    using bitlen_bounds [OF npos] bn1 unfolding bn_def [symmetric]
    by (simp only: two_powi_nat of_int_less_iff)
  have dlo: "(2::rat) powi (bd - 1) \<le> of_int d"
    using bitlen_bounds [OF dpos] bd1 unfolding bd_def [symmetric]
    by (simp only: two_powi_nat of_int_le_iff)
  have dhi: "of_int d < (2::rat) powi bd"
    using bitlen_bounds [OF dpos] bd1 unfolding bd_def [symmetric]
    by (simp only: two_powi_nat of_int_less_iff)
  have dr: "(0::rat) < of_int d" using dpos by simp
  have hi: "x < 2 powi (bn - bd + 1)"
  proof -
    have "x * 2 powi (bd - 1) \<le> x * of_int d"
      using dlo assms by (simp add: mult_left_mono)
    also have "\<dots> = of_int n" using xeq dr by simp
    also have "\<dots> < 2 powi bn" by (rule nhi)
    finally have "x < 2 powi bn / 2 powi (bd - 1)"
      by (simp add: pos_less_divide_eq)
    also have "\<dots> = 2 powi (bn - (bd - 1))"
      by (simp add: power_int_diff)
    finally show ?thesis by (simp add: algebra_simps)
  qed
  have lo: "2 powi (bn - bd - 1) < x"
  proof -
    have "2 powi (bn - 1) \<le> (of_int n :: rat)" by (rule nlo)
    also have "\<dots> = x * of_int d" using xeq dr by simp
    also have "\<dots> < x * 2 powi bd"
      using dhi assms by (simp add: mult_strict_left_mono)
    finally have "2 powi (bn - 1) / 2 powi bd < x"
      by (simp add: pos_divide_less_eq)
    moreover have "(2::rat) powi (bn - 1) / 2 powi bd = 2 powi (bn - 1 - bd)"
      by (simp add: power_int_diff)
    ultimately show ?thesis by (simp add: algebra_simps)
  qed
  have il: "ilog2 x = (if 2 powi (bn - bd) \<le> x then bn - bd else bn - bd - 1)"
    by (simp add: ilog2_def q bn_def bd_def Let_def)
  show ?thesis
  proof (cases "2 powi (bn - bd) \<le> x")
    case True
    then show ?thesis using hi il by simp
  next
    case False
    then have "x < 2 powi (bn - bd)" by simp
    then show ?thesis using lo il False by simp
  qed
qed

lemma ilog2_unique:
  assumes "0 < x" and "2 powi e \<le> x" and "x < 2 powi (e + 1)"
  shows "ilog2 x = e"
proof -
  let ?i = "ilog2 x"
  from ilog2_bounds [OF assms(1)]
  have b1: "2 powi ?i \<le> x" and b2: "x < 2 powi (?i + 1)" by simp_all
  have "(2::rat) powi ?i < 2 powi (e + 1)" using b1 assms(3) by (rule le_less_trans)
  then have "?i < e + 1" 
    using power_int_strict_increasing [of "e + 1" ?i "2::rat"] 
    by (metis not_less one_less_numeral_iff power_int_increasing semiring_norm(76) less_imp_le leD)
  moreover have "(2::rat) powi e < 2 powi (?i + 1)" using assms(2) b2 by (rule le_less_trans)
  then have "e < ?i + 1"
    by (metis not_less one_less_numeral_iff power_int_increasing semiring_norm(76) less_imp_le leD)
  ultimately show ?thesis by simp
qed


lemma round_half_even_near:
  assumes "\<bar>y - of_int m\<bar> < 1 / 2"
  shows "round_half_even y = m"
proof -
  have lo: "of_int m - 1 / 2 < y" and hi: "y < of_int m + 1 / 2"
    using assms by linarith+
  show ?thesis
  proof (cases "of_int m \<le> y")
    case True
    have "y < of_int m + 1" using hi by linarith
    with True have f: "\<lfloor>y\<rfloor> = m" by (rule floor_unique)
    have "y - of_int m < 1 / 2" using hi by linarith
    then show ?thesis by (simp add: round_half_even_def f Let_def)
  next
    case False
    have "of_int (m - 1) \<le> y" using lo by simp
    moreover have "y < of_int (m - 1) + 1" using False by simp
    ultimately have f: "\<lfloor>y\<rfloor> = m - 1" by (rule floor_unique)
    have r: "1 / 2 < y - of_int (m - 1)" using lo by simp
    then have "\<not> y - of_int (m - 1) < 1 / 2" by linarith
    with r show ?thesis by (simp add: round_half_even_def f Let_def)
  qed
qed

lemma round_half_even_tie:
  assumes "\<bar>y - of_int m\<bar> = 1 / 2" and "even m"
  shows "round_half_even y = m"
proof (cases "of_int m \<le> y")
  case True
  then have y: "y = of_int m + 1 / 2" using assms(1) by linarith
  have "of_int m \<le> y" and "y < of_int m + 1" using y by simp_all
  then have f: "\<lfloor>y\<rfloor> = m" by (rule floor_unique)
  have "y - of_int m = 1 / 2" using y by simp
  then show ?thesis using assms(2) by (simp add: round_half_even_def f Let_def)
next
  case False
  then have y: "y = of_int (m - 1) + 1 / 2" using assms(1) by simp
  have "of_int (m - 1) \<le> y" and "y < of_int (m - 1) + 1" using y by simp_all
  then have f: "\<lfloor>y\<rfloor> = m - 1" by (rule floor_unique)
  have "y - of_int (m - 1) = 1 / 2" using y by simp
  then show ?thesis using assms(2) by (simp add: round_half_even_def f Let_def)
qed

lemma round_half_even_eval:
  assumes "\<bar>y - of_int m\<bar> < 1 / 2 \<or> \<bar>y - of_int m\<bar> = 1 / 2 \<and> even m"
  shows "round_half_even y = m"
  using assms round_half_even_near round_half_even_tie by blast

lemma b64_round_eval:
  assumes "x \<noteq> 0" and "2 powi e \<le> \<bar>x\<bar>" and "\<bar>x\<bar> < 2 powi (e + 1)"
    and "q = max (e - 52) (- 1074)"
    and "\<bar>x / 2 powi q - of_int m\<bar> < 1 / 2
         \<or> \<bar>x / 2 powi q - of_int m\<bar> = 1 / 2 \<and> even m"
    and "y = of_int m * 2 powi q" and "\<bar>y\<bar> < 2 ^ 1024"
  shows "b64_round x = Fin y"
proof -
  have "0 < \<bar>x\<bar>" using assms(1) by simp
  from ilog2_unique [OF this assms(2) assms(3)]
  have "b64_quantum x = q" by (simp add: b64_quantum_def assms(4))
  moreover have "round_half_even (x / 2 powi q) = m"
    using assms(5) by (rule round_half_even_eval)
  ultimately show ?thesis
    using assms(1,6,7) by (simp add: b64_round_def Let_def)
qed

lemma b64_round_overflow:
  assumes "0 < x" and "2 powi e \<le> x" and "x < 2 powi (e + 1)"
    and "q = max (e - 52) (- 1074)"
    and "\<bar>x / 2 powi q - of_int m\<bar> < 1 / 2
         \<or> \<bar>x / 2 powi q - of_int m\<bar> = 1 / 2 \<and> even m"
    and "2 ^ 1024 \<le> \<bar>of_int m * 2 powi q :: rat\<bar>"
  shows "b64_round x = PInf"
proof -
  have ax: "\<bar>x\<bar> = x" using assms(1) by simp
  from ilog2_unique [OF assms(1) assms(2) assms(3)]
  have "b64_quantum x = q" by (simp add: b64_quantum_def assms(4) ax)
  moreover have "round_half_even (x / 2 powi q) = m"
    using assms(5) by (rule round_half_even_eval)
  ultimately show ?thesis
    using assms(1,6) by (simp add: b64_round_def Let_def)
qed

section \<open>Facts about the float operations\<close>

lemma b64_round_zero: "b64_round 0 = Fin 0"
  by (simp add: b64_round_def)

lemma b64_round_one: "b64_round 1 = Fin 1"
  by (rule b64_round_eval [where e = 0 and m = "2 ^ 52" and q = "- 52"]) simp_all

lemma py_div_error: "py_div x y = Inl e \<longleftrightarrow> y = Fin 0 \<and> e = ZeroDivisionError"
  by (cases y; cases x) (auto split: if_splits)

lemma py_div_self: "s \<noteq> 0 \<Longrightarrow> py_div (Fin s) (Fin s) = Inr (Fin 1)"
  by (simp add: b64_round_one)

lemma py_div_scaled:
  "k \<noteq> 0 \<Longrightarrow> py_div (Fin (k * s)) (Fin (k * r)) = py_div (Fin s) (Fin r)"
  by simp

lemma float_pow_one: "float_pow libm_pow (Fin 1) n = Inr (Fin 1)"
  by (simp add: float_pow_def)

lemma float_pow_no_zero_division:
  "0 \<le> n \<Longrightarrow> float_pow libm_pow x n \<noteq> Inl ZeroDivisionError"
  by (cases x) (auto simp: float_pow_def split: pyfloat.splits)

lemma float_pow_libm:
  "0 < a \<Longrightarrow> a \<noteq> 1 \<Longrightarrow> n \<noteq> 0 \<Longrightarrow> libm_pow a n = Fin r
     \<Longrightarrow> float_pow libm_pow (Fin a) n = Inr (Fin r)"
  by (simp add: float_pow_def)

lemma py_mul_zero_right: "py_mul x (Fin 0) = (if is_finite x then Fin 0 else NaN)"
  by (cases x) (simp_all add: is_finite_def b64_round_zero scale_inf_def)

lemma positive_cases: "(0::pyfloat) < d \<longleftrightarrow> (\<exists>a. d = Fin a \<and> 0 < a) \<or> d = PInf"
  by (cases d) (simp_all add: less_pyfloat_def zero_pyfloat_def)

lemma lennard_jones_zero_division_iff:
  "lennard_jones libm_pow eps s d = Inl ZeroDivisionError \<longleftrightarrow> d = Fin 0"
proof (cases "d = Fin 0")
  case True
  then show ?thesis by (simp add: lennard_jones_def bind_err_def)
next
  case False
  then obtain x where x: "py_div s d = Inr x"
    using py_div_error [of s d] by (cases "py_div s d") auto
  have "float_pow libm_pow x 12 \<noteq> Inl ZeroDivisionError"
    and "float_pow libm_pow x 6 \<noteq> Inl ZeroDivisionError"
    by (simp_all add: float_pow_no_zero_division)
  then have "lennard_jones libm_pow eps s d \<noteq> Inl ZeroDivisionError"
    by (auto simp: lennard_jones_def bind_err_def x split: sum.splits)
  with False show ?thesis by simp
qed

lemma lennard_jones_at_sigma:
  assumes "s \<noteq> 0"
  shows "lennard_jones libm_pow eps (Fin s) (Fin s) =
         Inr (if is_finite (py_mul (Fin 4) eps) then Fin 0 else NaN)"
  using assms
  by (simp add: lennard_jones_def bind_err_def b64_round_one float_pow_one b64_round_zero
      py_mul_zero_right del: py_mul.simps)

lemma lennard_jones_scaled:
  assumes "k \<noteq> 0"
  shows "lennard_jones libm_pow eps (Fin (k * s)) (Fin (k * r)) =
         lennard_jones libm_pow eps (Fin s) (Fin r)"
  unfolding lennard_jones_def py_div_scaled [OF assms] ..


lemma py_div_fin:
  "b \<noteq> 0 \<Longrightarrow> b64_round (a / b) = Fin c \<Longrightarrow> py_div (Fin a) (Fin b) = Inr (Fin c)"
  by simp

lemma int_as_float_fin: "b64_round (of_int k) = Fin r \<Longrightarrow> int_as_float k = Inr (Fin r)"
  by (simp add: int_as_float_def)

lemma py_round_fin:
  assumes "ndigits \<le> 323"
    and "\<bar>a * 10 ^ ndigits - of_int m\<bar> < 1 / 2
         \<or> \<bar>a * 10 ^ ndigits - of_int m\<bar> = 1 / 2 \<and> even m"
    and "b64_round (of_int m / 10 ^ ndigits) = Fin r"
  shows "py_round (Fin a) ndigits = Inr (Fin r)"
proof -
  have "round_half_even (a * 10 ^ ndigits) = m"
    using assms(2) by (rule round_half_even_eval)
  then show ?thesis
    using assms(1,3) by (simp add: py_round_def)
qed

lemma dec_point_up_numeral:
  "dec_point_up (numeral k) x d =
     (if x < 1 then d else dec_point_up (pred_numeral k) (x / 10) (d + 1))"
  by (simp only: numeral_eq_Suc dec_point_up.simps)

lemma dec_point_down_numeral:
  "dec_point_down (numeral k) x d =
     (if 1 / 10 \<le> x then d else dec_point_down (pred_numeral k) (x * 10) (d - 1))"
  by (simp only: numeral_eq_Suc dec_point_down.simps)

lemma shortest_numeral:
  "shortest x d n (numeral k) =
     (if b64_round (of_int (repr_candidate x d n) * 10 powi (d - n)) = Fin x then n
      else shortest x d (n + 1) (pred_numeral k))"
  by (simp only: numeral_eq_Suc shortest.simps)

lemma strip_zeros_numeral:
  "strip_zeros (numeral k) c e =
     (if c mod 10 = 0 then strip_zeros (pred_numeral k) (c div 10) (e + 1) else (c, e))"
  by (simp only: numeral_eq_Suc strip_zeros.simps)

lemma float_pow_nonzero_base:
  "a \<noteq> 0 \<Longrightarrow> float_pow libm_pow (Fin a) n \<noteq> Inl ZeroDivisionError"
  by (auto simp: float_pow_def split: pyfloat.splits)

lemma convert_to_j_no_zero_division: "convert_to_j libm_pow v \<noteq> Inl ZeroDivisionError"
proof -
  have "float_pow libm_pow (Fin 10) (- 19) \<noteq> Inl ZeroDivisionError"
    by (rule float_pow_nonzero_base) simp
  then show ?thesis
    by (auto simp: convert_to_j_def bind_err_def split: sum.splits)
qed

lemma bind_err_no_zero_division:
  assumes "m \<noteq> Inl ZeroDivisionError" and "\<And>v. f v \<noteq> Inl ZeroDivisionError"
  shows "bind_err m f \<noteq> Inl ZeroDivisionError"
  using assms by (cases m) (auto simp: bind_err_def)

section \<open>The evaluation steps of the notebook\<close>

text \<open>
  Every step is one float operation on exact binary64 values, with the value it rounds to.
\<close>

lemma epsilon_eV_val: "epsilon_eV = Fin (2968772874362631 / 2 ^ 58)"
  by (simp only: epsilon_eV_def lit_def, rule b64_round_eval [where e = "- 7" and m = "5937545748725262" and q = "- 59"], simp_all)

lemma sigma_val: "sigma = Fin (7656119366529843 / 2 ^ 51)"
  by (simp only: sigma_def lit_def, rule b64_round_eval [where e = "1" and m = "7656119366529843" and q = "- 51"], simp_all)

lemma distance1_val: "distance1 = Fin 3"
  by (simp only: distance1_def lit_def, rule b64_round_eval [where e = "1" and m = "6755399441055744" and q = "- 51"], simp_all)

lemma distance2_val: "distance2 = Fin (7656119366529843 / 2 ^ 51)"
  by (simp only: distance2_def lit_def, rule b64_round_eval [where e = "1" and m = "7656119366529843" and q = "- 51"], simp_all)

lemma distance3_val: "distance3 = Fin (4278419646001971 / 2 ^ 50)"
  by (simp only: distance3_def lit_def, rule b64_round_eval [where e = "1" and m = "8556839292003942" and q = "- 51"], simp_all)

lemma distance4_val: "distance4 = Fin (4728779608739021 / 2 ^ 50)"
  by (simp only: distance4_def lit_def, rule b64_round_eval [where e = "2" and m = "4728779608739021" and q = "- 50"], simp_all)

lemma distance5_val: "distance5 = Fin (2589569785738035 / 2 ^ 49)"
  by (simp only: distance5_def lit_def, rule b64_round_eval [where e = "2" and m = "5179139571476070" and q = "- 50"], simp_all)

lemma distance6_val: "distance6 = Fin 5"
  by (simp only: distance6_def lit_def, rule b64_round_eval [where e = "2" and m = "5629499534213120" and q = "- 50"], simp_all)

lemma ev_factor_val: "lit (1602176634 / 10 ^ 9) = Fin (1803890522966029 / 2 ^ 50)"
  by (simp only: lit_def, rule b64_round_eval [where e = "0" and m = "7215562091864116" and q = "- 52"], simp_all)

lemma pow10_m19_libm: "cr_pow 10 (- 19) = Fin (2076918743413931 / 2 ^ 114)"
  by (simp only: cr_pow_def, rule b64_round_eval [where e = "- 64" and m = "8307674973655724" and q = "- 116"], simp_all add: power_divide)

lemma pow10_m19: "float_pow cr_pow (Fin 10) (- 19) = Inr (Fin (2076918743413931 / 2 ^ 114))"
  by (rule float_pow_libm [where libm_pow = cr_pow, OF _ _ _ pow10_m19_libm]) simp_all

lemma convert_step1: "py_mul (Fin (2968772874362631 / 2 ^ 58)) (Fin (1803890522966029 / 2 ^ 50)) = Fin (4756498530956825 / 2 ^ 58)"
  by (simp only: py_mul.simps, rule b64_round_eval [where e = "- 6" and m = "4756498530956825" and q = "- 58"], simp_all)

lemma convert_step2: "py_mul (Fin (4756498530956825 / 2 ^ 58)) (Fin (2076918743413931 / 2 ^ 114)) = Fin (137096736074275 / 2 ^ 116)"
  by (simp only: py_mul.simps, rule b64_round_eval [where e = "- 70" and m = "8774191108753600" and q = "- 122"], simp_all)

lemma epsilon_J_val: "convert_to_j cr_pow epsilon_eV = Inr (Fin (137096736074275 / 2 ^ 116))"
  by (simp only: convert_to_j_def bind_err_def epsilon_eV_val ev_factor_val pow10_m19
      convert_step1 convert_step2 sum.case)

lemma four_epsilon: "py_mul (Fin 4) (Fin (137096736074275 / 2 ^ 116)) = Fin (137096736074275 / 2 ^ 114)"
  by (simp only: py_mul.simps, rule b64_round_eval [where e = "- 68" and m = "8774191108753600" and q = "- 120"], simp_all)

lemma ratio1: "py_div (Fin (7656119366529843 / 2 ^ 51)) (Fin 3) = Inr (Fin (2552039788843281 / 2 ^ 51))"
  by (rule py_div_fin, simp, rule b64_round_eval [where e = "0" and m = "5104079577686562" and q = "- 52"], simp_all)

lemma repulsive1_libm: "cr_pow (2552039788843281 / 2 ^ 51) 12 = Fin (2527910742168343 / 2 ^ 49)"
  by (simp only: cr_pow_def, rule b64_round_eval [where e = "2" and m = "5055821484336686" and q = "- 50"], simp_all add: power_divide)

lemma repulsive1: "float_pow cr_pow (Fin (2552039788843281 / 2 ^ 51)) 12 = Inr (Fin (2527910742168343 / 2 ^ 49))"
  by (rule float_pow_libm [where libm_pow = cr_pow, OF _ _ _ repulsive1_libm]) simp_all

lemma attractive1_libm: "cr_pow (2552039788843281 / 2 ^ 51) 6 = Fin (4771728801274277 / 2 ^ 51)"
  by (simp only: cr_pow_def, rule b64_round_eval [where e = "1" and m = "4771728801274277" and q = "- 51"], simp_all add: power_divide)

lemma attractive1: "float_pow cr_pow (Fin (2552039788843281 / 2 ^ 51)) 6 = Inr (Fin (4771728801274277 / 2 ^ 51))"
  by (rule float_pow_libm [where libm_pow = cr_pow, OF _ _ _ attractive1_libm]) simp_all

lemma bracket1: "py_sub (Fin (2527910742168343 / 2 ^ 49)) (Fin (4771728801274277 / 2 ^ 51)) = Fin (5339914167399095 / 2 ^ 51)"
  by (simp only: py_sub.simps, rule b64_round_eval [where e = "1" and m = "5339914167399095" and q = "- 51"], simp_all)

lemma product1: "py_mul (Fin (137096736074275 / 2 ^ 114)) (Fin (5339914167399095 / 2 ^ 51)) = Fin (5201775389218679 / 2 ^ 118)"
  by (simp only: py_mul.simps, rule b64_round_eval [where e = "- 66" and m = "5201775389218679" and q = "- 118"], simp_all)

lemma potential1: "lennard_jones cr_pow (Fin (137096736074275 / 2 ^ 116)) sigma distance1 = Inr (Fin (5201775389218679 / 2 ^ 118))"
  by (simp only: lennard_jones_def bind_err_def sigma_val distance1_val ratio1 repulsive1
      attractive1 bracket1 four_epsilon product1 sum.case)

lemma ratio2: "py_div (Fin (7656119366529843 / 2 ^ 51)) (Fin (7656119366529843 / 2 ^ 51)) = Inr (Fin 1)"
  by (rule py_div_fin, simp, rule b64_round_eval [where e = "0" and m = "4503599627370496" and q = "- 52"], simp_all)

lemma repulsive2: "float_pow cr_pow (Fin 1) 12 = Inr (Fin 1)"
  by (rule float_pow_one)

lemma attractive2: "float_pow cr_pow (Fin 1) 6 = Inr (Fin 1)"
  by (rule float_pow_one)

lemma bracket2: "py_sub (Fin 1) (Fin 1) = Fin 0"
  by (simp add: b64_round_def)

lemma product2: "py_mul (Fin (137096736074275 / 2 ^ 114)) (Fin 0) = Fin 0"
  by (simp add: b64_round_def)

lemma potential2: "lennard_jones cr_pow (Fin (137096736074275 / 2 ^ 116)) sigma distance2 = Inr (Fin 0)"
  by (simp only: lennard_jones_def bind_err_def sigma_val distance2_val ratio2 repulsive2
      attractive2 bracket2 four_epsilon product2 sum.case)

lemma ratio3: "py_div (Fin (7656119366529843 / 2 ^ 51)) (Fin (4278419646001971 / 2 ^ 50)) = Inr (Fin (8059073017399835 / 2 ^ 53))"
  by (rule py_div_fin, simp, rule b64_round_eval [where e = "- 1" and m = "8059073017399835" and q = "- 53"], simp_all)

lemma repulsive3_libm: "cr_pow (8059073017399835 / 2 ^ 53) 12 = Fin (4742022507294693 / 2 ^ 54)"
  by (simp only: cr_pow_def, rule b64_round_eval [where e = "- 2" and m = "4742022507294693" and q = "- 54"], simp_all add: power_divide)

lemma repulsive3: "float_pow cr_pow (Fin (8059073017399835 / 2 ^ 53)) 12 = Inr (Fin (4742022507294693 / 2 ^ 54))"
  by (rule float_pow_libm [where libm_pow = cr_pow, OF _ _ _ repulsive3_libm]) simp_all

lemma attractive3_libm: "cr_pow (8059073017399835 / 2 ^ 53) 6 = Fin (4621273720180929 / 2 ^ 53)"
  by (simp only: cr_pow_def, rule b64_round_eval [where e = "- 1" and m = "4621273720180929" and q = "- 53"], simp_all add: power_divide)

lemma attractive3: "float_pow cr_pow (Fin (8059073017399835 / 2 ^ 53)) 6 = Inr (Fin (4621273720180929 / 2 ^ 53))"
  by (rule float_pow_libm [where libm_pow = cr_pow, OF _ _ _ attractive3_libm]) simp_all

lemma bracket3: "py_sub (Fin (4742022507294693 / 2 ^ 54)) (Fin (4621273720180929 / 2 ^ 53)) = Fin (- (4500524933067165 / 2 ^ 54))"
  by (simp only: py_sub.simps, rule b64_round_eval [where e = "- 3" and m = "- 9001049866134330" and q = "- 55"], simp_all)

lemma product3: "py_mul (Fin (137096736074275 / 2 ^ 114)) (Fin (- (4500524933067165 / 2 ^ 54))) = Fin (- (8768200799301031 / 2 ^ 122))"
  by (simp only: py_mul.simps, rule b64_round_eval [where e = "- 70" and m = "- 8768200799301031" and q = "- 122"], simp_all)

lemma potential3: "lennard_jones cr_pow (Fin (137096736074275 / 2 ^ 116)) sigma distance3 = Inr (Fin (- (8768200799301031 / 2 ^ 122)))"
  by (simp only: lennard_jones_def bind_err_def sigma_val distance3_val ratio3 repulsive3
      attractive3 bracket3 four_epsilon product3 sum.case)

lemma ratio4: "py_div (Fin (7656119366529843 / 2 ^ 51)) (Fin (4728779608739021 / 2 ^ 50)) = Inr (Fin (7291542253837945 / 2 ^ 53))"
  by (rule py_div_fin, simp, rule b64_round_eval [where e = "- 1" and m = "7291542253837945" and q = "- 53"], simp_all)

lemma repulsive4_libm: "cr_pow (7291542253837945 / 2 ^ 53) 12 = Fin (5707360128113899 / 2 ^ 56)"
  by (simp only: cr_pow_def, rule b64_round_eval [where e = "- 4" and m = "5707360128113899" and q = "- 56"], simp_all add: power_divide)

lemma repulsive4: "float_pow cr_pow (Fin (7291542253837945 / 2 ^ 53)) 12 = Inr (Fin (5707360128113899 / 2 ^ 56))"
  by (rule float_pow_libm [where libm_pow = cr_pow, OF _ _ _ repulsive4_libm]) simp_all

lemma attractive4_libm: "cr_pow (7291542253837945 / 2 ^ 53) 6 = Fin (5069878198363643 / 2 ^ 54)"
  by (simp only: cr_pow_def, rule b64_round_eval [where e = "- 2" and m = "5069878198363643" and q = "- 54"], simp_all add: power_divide)

lemma attractive4: "float_pow cr_pow (Fin (7291542253837945 / 2 ^ 53)) 6 = Inr (Fin (5069878198363643 / 2 ^ 54))"
  by (rule float_pow_libm [where libm_pow = cr_pow, OF _ _ _ attractive4_libm]) simp_all

lemma bracket4: "py_sub (Fin (5707360128113899 / 2 ^ 56)) (Fin (5069878198363643 / 2 ^ 54)) = Fin (- (56922471348987 / 2 ^ 48))"
  by (simp only: py_sub.simps, rule b64_round_eval [where e = "- 3" and m = "- 7286076332670336" and q = "- 55"], simp_all)

lemma product4: "py_mul (Fin (137096736074275 / 2 ^ 114)) (Fin (- (56922471348987 / 2 ^ 48))) = Fin (- (887199011143315 / 2 ^ 119))"
  by (simp only: py_mul.simps, rule b64_round_eval [where e = "- 70" and m = "- 7097592089146520" and q = "- 122"], simp_all)

lemma potential4: "lennard_jones cr_pow (Fin (137096736074275 / 2 ^ 116)) sigma distance4 = Inr (Fin (- (887199011143315 / 2 ^ 119)))"
  by (simp only: lennard_jones_def bind_err_def sigma_val distance4_val ratio4 repulsive4
      attractive4 bracket4 four_epsilon product4 sum.case)

lemma ratio5: "py_div (Fin (7656119366529843 / 2 ^ 51)) (Fin (2589569785738035 / 2 ^ 49)) = Inr (Fin (6657495101330299 / 2 ^ 53))"
  by (rule py_div_fin, simp, rule b64_round_eval [where e = "- 1" and m = "6657495101330299" and q = "- 53"], simp_all)

lemma repulsive5_libm: "cr_pow (6657495101330299 / 2 ^ 53) 12 = Fin (239465412571875 / 2 ^ 53)"
  by (simp only: cr_pow_def, rule b64_round_eval [where e = "- 6" and m = "7662893202300000" and q = "- 58"], simp_all add: power_divide)

lemma repulsive5: "float_pow cr_pow (Fin (6657495101330299 / 2 ^ 53)) 12 = Inr (Fin (239465412571875 / 2 ^ 53))"
  by (rule float_pow_libm [where libm_pow = cr_pow, OF _ _ _ repulsive5_libm]) simp_all

lemma attractive5_libm: "cr_pow (6657495101330299 / 2 ^ 53) 6 = Fin (5874572577682413 / 2 ^ 55)"
  by (simp only: cr_pow_def, rule b64_round_eval [where e = "- 3" and m = "5874572577682413" and q = "- 55"], simp_all add: power_divide)

lemma attractive5: "float_pow cr_pow (Fin (6657495101330299 / 2 ^ 53)) 6 = Inr (Fin (5874572577682413 / 2 ^ 55))"
  by (rule float_pow_libm [where libm_pow = cr_pow, OF _ _ _ attractive5_libm]) simp_all

lemma bracket5: "py_sub (Fin (239465412571875 / 2 ^ 53)) (Fin (5874572577682413 / 2 ^ 55)) = Fin (- (4916710927394913 / 2 ^ 55))"
  by (simp only: py_sub.simps, rule b64_round_eval [where e = "- 3" and m = "- 4916710927394913" and q = "- 55"], simp_all)

lemma product5: "py_mul (Fin (137096736074275 / 2 ^ 114)) (Fin (- (4916710927394913 / 2 ^ 55))) = Fin (- (2394760018257231 / 2 ^ 121))"
  by (simp only: py_mul.simps, rule b64_round_eval [where e = "- 70" and m = "- 4789520036514462" and q = "- 122"], simp_all)

lemma potential5: "lennard_jones cr_pow (Fin (137096736074275 / 2 ^ 116)) sigma distance5 = Inr (Fin (- (2394760018257231 / 2 ^ 121)))"
  by (simp only: lennard_jones_def bind_err_def sigma_val distance5_val ratio5 repulsive5
      attractive5 bracket5 four_epsilon product5 sum.case)

lemma ratio6: "py_div (Fin (7656119366529843 / 2 ^ 51)) (Fin 5) = Inr (Fin (3062447746611937 / 2 ^ 52))"
  by (rule py_div_fin, simp, rule b64_round_eval [where e = "- 1" and m = "6124895493223874" and q = "- 53"], simp_all)

lemma repulsive6_libm: "cr_pow (3062447746611937 / 2 ^ 52) 12 = Fin (704347065668697 / 2 ^ 56)"
  by (simp only: cr_pow_def, rule b64_round_eval [where e = "- 7" and m = "5634776525349576" and q = "- 59"], simp_all add: power_divide)

lemma repulsive6: "float_pow cr_pow (Fin (3062447746611937 / 2 ^ 52)) 12 = Inr (Fin (704347065668697 / 2 ^ 56))"
  by (rule float_pow_libm [where libm_pow = cr_pow, OF _ _ _ repulsive6_libm]) simp_all

lemma attractive6_libm: "cr_pow (3062447746611937 / 2 ^ 52) 6 = Fin (3562076463236041 / 2 ^ 55)"
  by (simp only: cr_pow_def, rule b64_round_eval [where e = "- 4" and m = "7124152926472082" and q = "- 56"], simp_all add: power_divide)

lemma attractive6: "float_pow cr_pow (Fin (3062447746611937 / 2 ^ 52)) 6 = Inr (Fin (3562076463236041 / 2 ^ 55))"
  by (rule float_pow_libm [where libm_pow = cr_pow, OF _ _ _ attractive6_libm]) simp_all

lemma bracket6: "py_sub (Fin (704347065668697 / 2 ^ 56)) (Fin (3562076463236041 / 2 ^ 55)) = Fin (- (6419805860803385 / 2 ^ 56))"
  by (simp only: py_sub.simps, rule b64_round_eval [where e = "- 4" and m = "- 6419805860803385" and q = "- 56"], simp_all)

lemma product6: "py_mul (Fin (137096736074275 / 2 ^ 114)) (Fin (- (6419805860803385 / 2 ^ 56))) = Fin (- (1563432813872093 / 2 ^ 121))"
  by (simp only: py_mul.simps, rule b64_round_eval [where e = "- 71" and m = "- 6253731255488372" and q = "- 123"], simp_all)

lemma potential6: "lennard_jones cr_pow (Fin (137096736074275 / 2 ^ 116)) sigma distance6 = Inr (Fin (- (1563432813872093 / 2 ^ 121)))"
  by (simp only: lennard_jones_def bind_err_def sigma_val distance6_val ratio6 repulsive6
      attractive6 bracket6 four_epsilon product6 sum.case)

lemma reference1: "lit (15653523415738785 / 10 ^ 36) = Fin (5201775389218679 / 2 ^ 118)"
  by (simp only: lit_def, rule b64_round_eval [where e = "- 66" and m = "5201775389218679" and q = "- 118"], simp_all)

lemma reference2: "lit 0 = Fin 0"
  by (simp add: lit_def b64_round_def)

lemma reference3: "lit (- (16491152810326125 / 10 ^ 37)) = Fin (- (8768200799301031 / 2 ^ 122))"
  by (simp only: lit_def, rule b64_round_eval [where e = "- 70" and m = "- 8768200799301031" and q = "- 122"], simp_all)

lemma reference4: "lit (- (13349087048372307 / 10 ^ 37)) = Fin (- (887199011143315 / 2 ^ 119))"
  by (simp only: lit_def, rule b64_round_eval [where e = "- 70" and m = "- 7097592089146520" and q = "- 122"], simp_all)

lemma reference5: "lit (- (900808599371665 / 10 ^ 36)) = Fin (- (2394760018257231 / 2 ^ 121))"
  by (simp only: lit_def, rule b64_round_eval [where e = "- 70" and m = "- 4789520036514462" and q = "- 122"], simp_all)

lemma reference6: "lit (- (5880980609909882 / 10 ^ 37)) = Fin (- (1563432813872093 / 2 ^ 121))"
  by (simp only: lit_def, rule b64_round_eval [where e = "- 71" and m = "- 6253731255488372" and q = "- 123"], simp_all)


lemma lit_one: "lit 1 = Fin 1"
  by (simp only: lit_def b64_round_one)

lemma unit_step1: "py_mul (Fin 1) (Fin (1803890522966029 / 2 ^ 50)) = Fin (1803890522966029 / 2 ^ 50)"
  by (simp only: py_mul.simps, rule b64_round_eval [where e = "0" and m = "7215562091864116" and q = "- 52"], simp_all)

lemma unit_step2: "py_mul (Fin (1803890522966029 / 2 ^ 50)) (Fin (2076918743413931 / 2 ^ 114)) = Fin (1663795340707221 / 2 ^ 113)"
  by (simp only: py_mul.simps, rule b64_round_eval [where e = "- 63" and m = "6655181362828884" and q = "- 115"], simp_all)

lemma convert_unit: "convert_to_j cr_pow (lit 1) = Inr (Fin (1663795340707221 / 2 ^ 113))"
  by (simp only: convert_to_j_def bind_err_def lit_one ev_factor_val pow10_m19
      unit_step1 unit_step2 sum.case)

lemma ev_joule_literal: "lit (1602176634 / 10 ^ 28) = Fin (6655181362828883 / 2 ^ 115)"
  by (simp only: lit_def, rule b64_round_eval [where e = "- 63" and m = "6655181362828883" and q = "- 115"], simp_all)

lemma ev_joule_computed: "lit (16021766340000001 / 10 ^ 35) = Fin (1663795340707221 / 2 ^ 113)"
  by (simp only: lit_def, rule b64_round_eval [where e = "- 63" and m = "6655181362828884" and q = "- 115"], simp_all)

lemma huge_epsilon: "lit (10 ^ 308) = Fin (156575653125701 * 2 ^ 976)"
  by (simp only: lit_def, rule b64_round_eval [where e = "1023" and m = "5010420900022432" and q = "971"], simp_all)

lemma four_huge_epsilon: "py_mul (Fin 4) (Fin (156575653125701 * 2 ^ 976)) = PInf"
  by (simp only: py_mul.simps, rule b64_round_overflow [where e = "1025" and m = "5010420900022432" and q = "973"], simp_all)

lemma scaled_sigma: "py_mul (Fin 10) (Fin (7656119366529843 / 2 ^ 51)) = Fin 34"
  by (simp only: py_mul.simps, rule b64_round_eval [where e = "5" and m = "4785074604081152" and q = "- 47"], simp_all)

lemma scaled_distance4: "py_mul (Fin 10) (Fin (4728779608739021 / 2 ^ 50)) = Fin 42"
  by (simp only: py_mul.simps, rule b64_round_eval [where e = "5" and m = "5910974510923776" and q = "- 47"], simp_all)

lemma scaled_ratio: "py_div (Fin 34) (Fin 42) = Inr (Fin (3645771126918973 / 2 ^ 52))"
  by (rule py_div_fin, simp, rule b64_round_eval [where e = "- 1" and m = "7291542253837946" and q = "- 53"], simp_all)

lemma scaled_repulsive_libm: "cr_pow (3645771126918973 / 2 ^ 52) 12 = Fin (1426840032028477 / 2 ^ 54)"
  by (simp only: cr_pow_def, rule b64_round_eval [where e = "- 4" and m = "5707360128113908" and q = "- 56"], simp_all add: power_divide)

lemma scaled_repulsive: "float_pow cr_pow (Fin (3645771126918973 / 2 ^ 52)) 12 = Inr (Fin (1426840032028477 / 2 ^ 54))"
  by (rule float_pow_libm [where libm_pow = cr_pow, OF _ _ _ scaled_repulsive_libm]) simp_all

lemma scaled_attractive_libm: "cr_pow (3645771126918973 / 2 ^ 52) 6 = Fin (5069878198363647 / 2 ^ 54)"
  by (simp only: cr_pow_def, rule b64_round_eval [where e = "- 2" and m = "5069878198363647" and q = "- 54"], simp_all add: power_divide)

lemma scaled_attractive: "float_pow cr_pow (Fin (3645771126918973 / 2 ^ 52)) 6 = Inr (Fin (5069878198363647 / 2 ^ 54))"
  by (rule float_pow_libm [where libm_pow = cr_pow, OF _ _ _ scaled_attractive_libm]) simp_all

lemma scaled_bracket: "py_sub (Fin (1426840032028477 / 2 ^ 54)) (Fin (5069878198363647 / 2 ^ 54)) = Fin (- (1821519083167585 / 2 ^ 53))"
  by (simp only: py_sub.simps, rule b64_round_eval [where e = "- 3" and m = "- 7286076332670340" and q = "- 55"], simp_all)

lemma four_one: "py_mul (Fin 4) (Fin 1) = Fin 4"
  by (simp only: py_mul.simps, rule b64_round_eval [where e = "2" and m = "4503599627370496" and q = "- 50"], simp_all)

lemma scaled_product: "py_mul (Fin 4) (Fin (- (1821519083167585 / 2 ^ 53))) = Fin (- (1821519083167585 / 2 ^ 51))"
  by (simp only: py_mul.simps, rule b64_round_eval [where e = "- 1" and m = "- 7286076332670340" and q = "- 53"], simp_all)

lemma scaled_potential: "lennard_jones cr_pow (Fin 1) (Fin 34) (Fin 42) = Inr (Fin (- (1821519083167585 / 2 ^ 51)))"
  by (simp only: lennard_jones_def bind_err_def scaled_ratio scaled_repulsive
      scaled_attractive scaled_bracket four_one scaled_product sum.case)

lemma unscaled_product: "py_mul (Fin 4) (Fin (- (56922471348987 / 2 ^ 48))) = Fin (- (56922471348987 / 2 ^ 46))"
  by (simp only: py_mul.simps, rule b64_round_eval [where e = "- 1" and m = "- 7286076332670336" and q = "- 53"], simp_all)

lemma unscaled_potential: "lennard_jones cr_pow (Fin 1) sigma distance4 = Inr (Fin (- (56922471348987 / 2 ^ 46)))"
  by (simp only: lennard_jones_def bind_err_def sigma_val distance4_val ratio4 repulsive4
      attractive4 bracket4 four_one unscaled_product sum.case)

lemma tiny_sigma: "py_mul (Fin (1 / 2 ^ 1074)) (Fin 1) = Fin (1 / 2 ^ 1074)"
  by (simp only: py_mul.simps, rule b64_round_eval [where e = "- 1074" and m = "1" and q = "- 1074"], simp_all)

lemma tiny_distance: "py_mul (Fin (1 / 2 ^ 1074)) (Fin (1 / 2 ^ 2)) = Fin 0"
  by (simp only: py_mul.simps, rule b64_round_eval [where e = "- 1076" and m = "0" and q = "- 1074"], simp_all)

lemma double_sigma: "py_mul (Fin 2) (Fin (7656119366529843 / 2 ^ 51)) = Fin (2 * (7656119366529843 / 2 ^ 51))"
  by (simp only: py_mul.simps, rule b64_round_eval [where e = "2" and m = "7656119366529843" and q = "- 50"], simp_all)

lemma double_distance3: "py_mul (Fin 2) (Fin (4278419646001971 / 2 ^ 50)) = Fin (2 * (4278419646001971 / 2 ^ 50))"
  by (simp only: py_mul.simps, rule b64_round_eval [where e = "2" and m = "8556839292003942" and q = "- 50"], simp_all)


lemma ten_to_21: "int_as_float (10 ^ 21) = Inr (Fin 1000000000000000000000)"
  by (rule int_as_float_fin, rule b64_round_eval [where e = "69" and m = "7629394531250000" and q = "17"], simp_all)

lemma scaled_lowest: "py_mul (Fin (- (8768200799301031 / 2 ^ 122))) (Fin 1000000000000000000000) = Fin (- (928369370643683 / 2 ^ 49))"
  by (simp only: py_mul.simps, rule b64_round_eval [where e = "0" and m = "- 7426954965149464" and q = "- 52"], simp_all)

lemma display_round: "py_round (Fin (- (928369370643683 / 2 ^ 49))) 2 = Inr (Fin (- (3715469692580659 / 2251799813685248)))"
  by (rule py_round_fin [where m = "- 165"], simp, simp, rule b64_round_eval [where e = "0" and m = "- 7430939385161318" and q = "- 52"], simp_all)

lemma display_literal: "lit (- (165 / 100)) = Fin (- (3715469692580659 / 2251799813685248))"
  by (simp only: lit_def, rule b64_round_eval [where e = "0" and m = "- 7430939385161318" and q = "- 52"], simp_all)

lemma repr_try1: "b64_round 2 = Fin 2"
  by (rule b64_round_eval [where e = "1" and m = "4503599627370496" and q = "- 51"], simp_all)

lemma repr_try2: "b64_round (8 / 5) = Fin (3602879701896397 / 2251799813685248)"
  by (rule b64_round_eval [where e = "0" and m = "7205759403792794" and q = "- 52"], simp_all)

lemma repr_try3: "b64_round (33 / 20) = Fin (3715469692580659 / 2251799813685248)"
  by (rule b64_round_eval [where e = "0" and m = "7430939385161318" and q = "- 52"], simp_all)

lemma repr_dec_point: "dec_point (3715469692580659 / 2251799813685248) = 1"
  by (simp add: dec_point_def dec_point_up_numeral)

lemma repr_candidate1: "repr_candidate (3715469692580659 / 2251799813685248) 1 1 = 2"
  unfolding repr_candidate_def by (rule round_half_even_eval) simp

lemma repr_candidate2: "repr_candidate (3715469692580659 / 2251799813685248) 1 2 = 16"
  unfolding repr_candidate_def by (rule round_half_even_eval) simp

lemma repr_candidate3: "repr_candidate (3715469692580659 / 2251799813685248) 1 3 = 165"
  unfolding repr_candidate_def by (rule round_half_even_eval) simp

lemma repr_shortest: "shortest (3715469692580659 / 2251799813685248) 1 1 16 = 3"
  by (simp add: shortest_numeral repr_candidate1 repr_candidate2 repr_candidate3
      repr_try1 repr_try2 repr_try3 del: shortest.simps)

lemma repr_digits: "digit_chars 165 = ''165''"
  by (simp add: digit_chars.simps [of 165] digit_chars.simps [of 16]
      digit_chars.simps [of "Suc 0"] digit_char_def)

lemma repr_magnitude: "repr_positive (3715469692580659 / 2251799813685248) = ''1.65''"
  by (simp add: repr_positive_def repr_dec_point repr_shortest repr_candidate3
      strip_zeros_numeral repr_digits format_short_def)

lemma repr_rounded: "py_repr (Fin (- (3715469692580659 / 2251799813685248))) = ''-1.65''"
  by (simp add: py_repr_def repr_magnitude)

section \<open>The reference scenario\<close>

text \<open>
  Claim C1. With \<open>epsilon = 0.0103\<close> eV converted by \<open>convert_to_j\<close> and
  \<open>sigma = 3.40\<close>, the six evaluations of \<open>lennard_jones\<close> at the distances 3.0, 3.4,
  3.8, 4.2, 4.6, 5.0 are the binary64 values written 1.5653523415738785e-20, 0.0,
  -1.6491152810326125e-21, -1.3349087048372307e-21, -9.00808599371665e-22 and
  -5.880980609909882e-22, and \<open>compare_values\<close> on that sequence returns
  (-1.6491152810326125e-21, 2). The C library's \<open>pow\<close> is the correctly rounded one.
\<close>

theorem reference_scenario:
  "potentials cr_pow =
     Inr [lit (15653523415738785 / 10 ^ 36),
          lit 0,
          lit (- (16491152810326125 / 10 ^ 37)),
          lit (- (13349087048372307 / 10 ^ 37)),
          lit (- (900808599371665 / 10 ^ 36)),
          lit (- (5880980609909882 / 10 ^ 37))]
   \<and> lowest_index cr_pow = Inr (lit (- (16491152810326125 / 10 ^ 37)), 2)"
proof -
  have p: "potentials cr_pow =
    Inr [Fin (5201775389218679 / 2 ^ 118),
       Fin 0,
       Fin (- (8768200799301031 / 2 ^ 122)),
       Fin (- (887199011143315 / 2 ^ 119)),
       Fin (- (2394760018257231 / 2 ^ 121)),
       Fin (- (1563432813872093 / 2 ^ 121))]"
    by (simp only: potentials_def bind_err_def epsilon_J_val
        potential1 potential2 potential3 potential4 potential5 potential6 sum.case)
  have c: "compare_values
      [Fin (5201775389218679 / 2 ^ 118),
       Fin 0,
       Fin (- (8768200799301031 / 2 ^ 122)),
       Fin (- (887199011143315 / 2 ^ 119)),
       Fin (- (2394760018257231 / 2 ^ 121)),
       Fin (- (1563432813872093 / 2 ^ 121))] =
    (Fin (- (8768200799301031 / 2 ^ 122)), 2)"
    by (simp add: compare_values_def scan_step_def less_pyfloat_def zero_pyfloat_def upt_rec)
  show ?thesis
    by (simp only: lowest_index_def bind_err_def p c sum.case
        reference1 reference2 reference3 reference4 reference5 reference6)
qed

section \<open>The unit conversion\<close>

text \<open>
  Claim C5, as the code has it. \<open>convert_to_j(1.0)\<close> is the product of \<open>1.0\<close>, the
  double nearest to 1.602176634 and the double nearest to \<open>10^-19\<close>, rounded after each
  multiplication. It is the binary64 value written 1.6021766340000001e-19, which lies
  \<open>2^-115\<close>, one unit in the last place, above the value written 1.602176634e-19.
\<close>

theorem convert_to_j_unit:
  "convert_to_j cr_pow (lit 1) = Inr (lit (16021766340000001 / 10 ^ 35))
   \<and> lit (16021766340000001 / 10 ^ 35) = Fin (1663795340707221 / 2 ^ 113)
   \<and> lit (1602176634 / 10 ^ 28) = Fin (6655181362828883 / 2 ^ 115)
   \<and> (1663795340707221 / 2 ^ 113 :: rat) - 6655181362828883 / 2 ^ 115 = 1 / 2 ^ 115
   \<and> b64_quantum (6655181362828883 / 2 ^ 115) = - 115"
proof -
  have q: "b64_quantum (6655181362828883 / 2 ^ 115) = - 115"
    unfolding b64_quantum_def
    by (subst ilog2_unique [where e = "- 63"]) simp_all
  have a: "convert_to_j cr_pow (lit 1) = Inr (lit (16021766340000001 / 10 ^ 35))"
    by (simp only: convert_unit ev_joule_computed)
  have d: "(1663795340707221 / 2 ^ 113 :: rat) - 6655181362828883 / 2 ^ 115 = 1 / 2 ^ 115"
    by simp
  from a ev_joule_computed ev_joule_literal d q show ?thesis
    by (intro conjI)
qed

text \<open>The statement with the exact constant fails at the input \<open>1.0\<close>.\<close>

theorem convert_to_j_unit_not_exact:
  "convert_to_j cr_pow (lit 1) \<noteq> Inr (lit (1602176634 / 10 ^ 28))"
  unfolding convert_unit ev_joule_literal by simp

section \<open>The potential at the crossing distance\<close>

text \<open>
  Claim C6, as the code has it. For every finite \<open>sigma > 0\<close> the quotient
  \<open>sigma / sigma\<close> is exactly \<open>1.0\<close>, both powers are \<open>1.0\<close> and the bracket is
  \<open>0.0\<close>, whatever the C library's \<open>pow\<close> does. The result is \<open>0.0\<close> when the
  product \<open>4 * epsilon\<close> is finite, and NaN when that product is an infinity or NaN.
\<close>

theorem lennard_jones_at_crossing:
  assumes "0 < s"
  shows "lennard_jones libm_pow epsilon (Fin s) (Fin s) =
         Inr (if is_finite (py_mul (Fin 4) epsilon) then Fin 0 else NaN)"
proof -
  have "s \<noteq> 0" using assms by simp
  then show ?thesis by (rule lennard_jones_at_sigma)
qed

theorem lennard_jones_at_crossing_witness:
  "(0::rat) < 2 \<and> lennard_jones cr_pow (Fin 1) (Fin 2) (Fin 2) = Inr (Fin 0)"
proof -
  have h: "(0::rat) < 2" by simp
  show ?thesis
    using lennard_jones_at_crossing [OF h, of cr_pow "Fin 1"]
    by (simp add: four_one is_finite_def del: py_mul.simps)
qed

text \<open>
  With \<open>epsilon = 1e308\<close> the product \<open>4 * epsilon\<close> overflows to infinity, and
  infinity times \<open>0.0\<close> is NaN.
\<close>

theorem lennard_jones_at_crossing_overflow:
  "lennard_jones cr_pow (lit (10 ^ 308)) sigma sigma = Inr NaN
   \<and> lennard_jones cr_pow (lit (10 ^ 308)) sigma sigma \<noteq> Inr (Fin 0)"
proof -
  have "lennard_jones cr_pow (Fin (156575653125701 * 2 ^ 976)) sigma sigma =
        Inr (if is_finite (py_mul (Fin 4) (Fin (156575653125701 * 2 ^ 976))) then Fin 0 else NaN)"
    unfolding sigma_val by (rule lennard_jones_at_sigma) simp
  then have "lennard_jones cr_pow (Fin (156575653125701 * 2 ^ 976)) sigma sigma = Inr NaN"
    unfolding four_huge_epsilon by (simp add: is_finite_def)
  then show ?thesis
    unfolding huge_epsilon by simp
qed

section \<open>Scaling both lengths\<close>

text \<open>
  Claim C7, as the code has it. The result depends on \<open>sigma\<close> and the distance only
  through the rounded quotient \<open>sigma / distance\<close>. Scaling both by \<open>k\<close> leaves
  the result unchanged whenever the two products \<open>k * sigma\<close> and \<open>k * distance\<close> are
  exact, that is, not rounded (as for \<open>k\<close> a power of two without overflow or
  underflow); this holds whatever the C library's \<open>pow\<close> does.
\<close>

theorem lennard_jones_exact_scaling:
  assumes "k \<noteq> 0"
    and "py_mul (Fin k) (Fin s) = Fin (k * s)"
    and "py_mul (Fin k) (Fin r) = Fin (k * r)"
  shows "lennard_jones libm_pow epsilon (py_mul (Fin k) (Fin s)) (py_mul (Fin k) (Fin r)) =
         lennard_jones libm_pow epsilon (Fin s) (Fin r)
         \<and> (py_div s1 r1 = py_div s2 r2 \<longrightarrow>
            lennard_jones libm_pow epsilon s1 r1 = lennard_jones libm_pow epsilon s2 r2)"
proof -
  have "lennard_jones libm_pow epsilon (py_mul (Fin k) (Fin s)) (py_mul (Fin k) (Fin r)) =
        lennard_jones libm_pow epsilon (Fin s) (Fin r)"
    unfolding assms(2) assms(3) using assms(1) by (rule lennard_jones_scaled)
  moreover have "py_div s1 r1 = py_div s2 r2 \<longrightarrow>
        lennard_jones libm_pow epsilon s1 r1 = lennard_jones libm_pow epsilon s2 r2"
    by (simp add: lennard_jones_def)
  ultimately show ?thesis by (rule conjI)
qed

theorem lennard_jones_exact_scaling_witness:
  "(2::rat) \<noteq> 0
   \<and> py_mul (Fin 2) (Fin (7656119366529843 / 2 ^ 51)) = Fin (2 * (7656119366529843 / 2 ^ 51))
   \<and> py_mul (Fin 2) (Fin (4278419646001971 / 2 ^ 50)) = Fin (2 * (4278419646001971 / 2 ^ 50))
   \<and> lennard_jones cr_pow (Fin 1) (py_mul (Fin 2) (Fin (7656119366529843 / 2 ^ 51)))
        (py_mul (Fin 2) (Fin (4278419646001971 / 2 ^ 50))) =
      lennard_jones cr_pow (Fin 1) (Fin (7656119366529843 / 2 ^ 51)) (Fin (4278419646001971 / 2 ^ 50))"
proof -
  have h: "(2::rat) \<noteq> 0" by simp
  from lennard_jones_exact_scaling [OF h double_sigma double_distance3, of cr_pow "Fin 1"]
  have "lennard_jones cr_pow (Fin 1) (py_mul (Fin 2) (Fin (7656119366529843 / 2 ^ 51)))
        (py_mul (Fin 2) (Fin (4278419646001971 / 2 ^ 50))) =
      lennard_jones cr_pow (Fin 1) (Fin (7656119366529843 / 2 ^ 51)) (Fin (4278419646001971 / 2 ^ 50))"
    by (rule conjunct1)
  with h double_sigma double_distance3 show ?thesis by (intro conjI)
qed

text \<open>
  The scale factor \<open>k = 10\<close> turns \<open>sigma = 3.4\<close> and the distance \<open>4.2\<close> into
  \<open>34.0\<close> and \<open>42.0\<close>; the rounded quotients differ and so do the results (with
  \<open>epsilon = 1.0\<close>: -0.8089169703707033 against -0.8089169703707029). With
  \<open>k = 2^-1074\<close>, \<open>sigma = 1.0\<close> and the distance \<open>0.25\<close>, the scaled distance
  underflows to zero and the scaled call raises \<open>ZeroDivisionError\<close>.
\<close>

theorem lennard_jones_scaling_differs:
  "lennard_jones cr_pow (Fin 1) (py_mul (Fin 10) sigma) (py_mul (Fin 10) distance4) \<noteq>
   lennard_jones cr_pow (Fin 1) sigma distance4
   \<and> lennard_jones cr_pow (Fin 1) (py_mul (Fin (1 / 2 ^ 1074)) (Fin 1))
        (py_mul (Fin (1 / 2 ^ 1074)) (Fin (1 / 2 ^ 2))) = Inl ZeroDivisionError
   \<and> lennard_jones cr_pow (Fin 1) (Fin 1) (Fin (1 / 2 ^ 2)) \<noteq> Inl ZeroDivisionError"
proof -
  have a: "lennard_jones cr_pow (Fin 1) (py_mul (Fin 10) sigma) (py_mul (Fin 10) distance4) =
           Inr (Fin (- (1821519083167585 / 2 ^ 51)))"
    by (simp only: sigma_val distance4_val scaled_sigma scaled_distance4 scaled_potential)
  have "lennard_jones cr_pow (Fin 1) (py_mul (Fin 10) sigma) (py_mul (Fin 10) distance4) \<noteq>
        lennard_jones cr_pow (Fin 1) sigma distance4"
    unfolding a unscaled_potential by simp
  moreover have "lennard_jones cr_pow (Fin 1) (py_mul (Fin (1 / 2 ^ 1074)) (Fin 1))
        (py_mul (Fin (1 / 2 ^ 1074)) (Fin (1 / 2 ^ 2))) = Inl ZeroDivisionError"
    unfolding tiny_sigma tiny_distance by (simp add: lennard_jones_zero_division_iff)
  moreover have "lennard_jones cr_pow (Fin 1) (Fin 1) (Fin (1 / 2 ^ 2)) \<noteq> Inl ZeroDivisionError"
    by (simp add: lennard_jones_zero_division_iff)
  ultimately show ?thesis by (intro conjI)
qed

section \<open>No division by zero\<close>

text \<open>
  Claim C8. When the distance is strictly positive, the division \<open>sigma / distance\<close>
  does not divide by zero and \<open>lennard_jones\<close> does not raise \<open>ZeroDivisionError\<close>,
  for any \<open>epsilon\<close> and \<open>sigma\<close> and whatever the C library's \<open>pow\<close> does.
  Each of the six distances of the notebook is strictly positive, so the reference
  computation never raises \<open>ZeroDivisionError\<close>.
\<close>

theorem lennard_jones_no_zero_division:
  "(0 < distance \<longrightarrow>
      py_div s distance \<noteq> Inl ZeroDivisionError
      \<and> lennard_jones libm_pow epsilon s distance \<noteq> Inl ZeroDivisionError)
   \<and> (\<forall>d\<in>set distances.
        0 < d \<and> lennard_jones libm_pow epsilon s d \<noteq> Inl ZeroDivisionError)
   \<and> potentials libm_pow \<noteq> Inl ZeroDivisionError"
proof -
  have nz: "0 < d \<Longrightarrow> d \<noteq> Fin 0" for d :: pyfloat
    by (auto simp: less_pyfloat_def zero_pyfloat_def)
  have pos: "0 < d \<Longrightarrow> lennard_jones libm_pow e sg d \<noteq> Inl ZeroDivisionError" for d e sg
    using nz [of d] by (simp add: lennard_jones_zero_division_iff)
  have quot: "0 < d \<Longrightarrow> py_div s d \<noteq> Inl ZeroDivisionError" for d
    using nz [of d] by (simp add: py_div_error)
  have six: "\<forall>d\<in>set distances. 0 < d"
    by (simp add: distances_def distance1_val distance2_val distance3_val distance4_val
        distance5_val distance6_val less_pyfloat_def zero_pyfloat_def)
  then have each: "0 < distance1" "0 < distance2" "0 < distance3" "0 < distance4"
    "0 < distance5" "0 < distance6"
    by (simp_all add: distances_def)
  have run: "potentials libm_pow \<noteq> Inl ZeroDivisionError"
    unfolding potentials_def
    by (intro bind_err_no_zero_division convert_to_j_no_zero_division pos each) simp_all
  show ?thesis using pos quot six run by blast
qed

theorem lennard_jones_no_zero_division_witness:
  "0 < distance3 \<and> py_div sigma distance3 \<noteq> Inl ZeroDivisionError
   \<and> lennard_jones cr_pow (Fin 1) sigma distance3 \<noteq> Inl ZeroDivisionError"
proof -
  have h: "0 < distance3"
    by (simp add: distance3_val less_pyfloat_def zero_pyfloat_def)
  with lennard_jones_no_zero_division [of distance3 sigma cr_pow "Fin 1"]
  show ?thesis by blast
qed

section \<open>The displayed value\<close>

text \<open>
  Claim C4. The found minimum -1.6491152810326125e-21 times \<open>10^21\<close>, rounded to two
  decimal places, is exactly the float written -1.65, and the line printed by
  \<open>print(f"{lowest}e-21 J")\<close> is \<open>-1.65e-21 J\<close>.
\<close>

theorem displayed_minimum:
  "rounded_lowest (lit (- (16491152810326125 / 10 ^ 37))) = Inr (lit (- (165 / 100)))
   \<and> printed_line (lit (- (16491152810326125 / 10 ^ 37))) = Inr ''-1.65e-21 J''"
proof -
  have r: "rounded_lowest (lit (- (16491152810326125 / 10 ^ 37))) = Inr (Fin (- (3715469692580659 / 2251799813685248)))"
    by (simp only: rounded_lowest_def bind_err_def reference3 ten_to_21 scaled_lowest
        display_round sum.case)
  have p: "printed_line (lit (- (16491152810326125 / 10 ^ 37))) = Inr ''-1.65e-21 J''"
    unfolding printed_line_def r by (simp add: bind_err_def repr_rounded)
  show ?thesis
    unfolding display_literal using r p by (rule conjI)
qed

end
